theory Spec2Isabelle
  imports Main "HOL-Library.Word"
begin

unbundle bit_operations_syntax

section \<open>Data model of spdifTx.cpp\<close>

text \<open>
  Machine integers of the source: \<open>int16_t\<close> samples, \<open>int32_t\<close> transfer words and
  \<open>uint32_t\<close> addresses are words of that width; \<open>sint\<close> reads the signed value.
\<close>

type_synonym int16_t = "16 word"
type_synonym int32_t = "32 word"
type_synonym uint32_t = "32 word"

text \<open>
  A value of type \<open>audio_block_t *\<close> is the null pointer, the address of the static
  object \<open>silentAudio\<close>, or the address of a block of the audio graph's pool (numbered).
  Distinct objects have distinct addresses, so comparing pointers is comparing these values.
\<close>

datatype audio_block_ptr = Nullptr | SilentAudio | Block nat

text \<open>
  The state the file owns or touches: the static transmit buffer \<open>fifoTx[512]\<close>, the
  sample data of the static block \<open>silentAudio\<close>, the two queue arrays
  \<open>leftAudioBuffer[2]\<close> and \<open>rightAudioBuffer[2]\<close>, the sample data of the pool blocks
  (memory of the audio graph), and the trace of the calls of \<open>release\<close>, oldest first.
\<close>

record spdif_state =
  fifoTx :: "int32_t list"
  silentAudio :: "int16_t list"
  leftAudioBuffer :: "audio_block_ptr list"
  rightAudioBuffer :: "audio_block_ptr list"
  pool :: "nat \<Rightarrow> int16_t list"
  released :: "audio_block_ptr list"

text \<open>
  Array accesses are checked: an index outside the array is undefined behaviour in the
  source and \<open>None\<close> here.
\<close>

definition load16 :: "int16_t list \<Rightarrow> nat \<Rightarrow> int16_t option" where
  "load16 d i = (if i < length d then Some (d ! i) else None)"

definition store32 :: "int32_t list \<Rightarrow> nat \<Rightarrow> int32_t \<Rightarrow> int32_t list option" where
  "store32 mem a v = (if a < length mem then Some (mem[a := v]) else None)"

text \<open>\<open>p->data\<close>: the sample array of the block a pointer refers to; null has none.\<close>

definition data_of :: "spdif_state \<Rightarrow> audio_block_ptr \<Rightarrow> int16_t list option" where
  "data_of s p = (case p of
       Nullptr \<Rightarrow> None
     | SilentAudio \<Rightarrow> Some (silentAudio s)
     | Block n \<Rightarrow> Some (pool s n))"

section \<open>Sample encoder\<close>

text \<open>
  \<open>leftAudioData[i] << 8\<close>: the 16-bit sample is promoted to a 32-bit int (sign
  extension) and shifted left by 8; the result is stored into an \<open>int32_t\<close>. On a
  negative sample the shift acts on the two's-complement representation, as GCC (the
  compiler of this target) defines it.
\<close>

definition shl8 :: "int16_t \<Rightarrow> int32_t" where
  "shl8 x = push_bit 8 (scast x)"

text \<open>
  One assignment \<open>pTx[k] = data[j] << 8\<close>, where \<open>pTx\<close> is the word index
  of the destination window inside \<open>fifoTx\<close>.
\<close>

definition put :: "nat \<Rightarrow> nat \<Rightarrow> int16_t list \<Rightarrow> nat \<Rightarrow> int32_t list \<Rightarrow> int32_t list option" where
  "put pTx k d j mem = (case load16 d j of
       None \<Rightarrow> None
     | Some x \<Rightarrow> store32 mem (pTx + k) (shl8 x))"

text \<open>The body of the loop of \<open>spdifInterleave\<close>: eight assignments, in source order.\<close>

definition spdifInterleave_body ::
  "nat \<Rightarrow> nat \<Rightarrow> int16_t list \<Rightarrow> int16_t list \<Rightarrow> int32_t list \<Rightarrow> int32_t list option" where
  "spdifInterleave_body pTx i leftAudioData rightAudioData mem =
     Option.bind (put pTx (2 * i) leftAudioData i mem) (\<lambda>m1.
     Option.bind (put pTx (2 * i + 1) rightAudioData i m1) (\<lambda>m2.
     Option.bind (put pTx (2 * i + 2) leftAudioData (i + 1) m2) (\<lambda>m3.
     Option.bind (put pTx (2 * i + 3) rightAudioData (i + 1) m3) (\<lambda>m4.
     Option.bind (put pTx (2 * i + 4) leftAudioData (i + 2) m4) (\<lambda>m5.
     Option.bind (put pTx (2 * i + 5) rightAudioData (i + 2) m5) (\<lambda>m6.
     Option.bind (put pTx (2 * i + 6) leftAudioData (i + 3) m6) (\<lambda>m7.
     put pTx (2 * i + 7) rightAudioData (i + 3) m7)))))))"

text \<open>\<open>for (size_t i = 0; i < 128; i += 4)\<close>, from the counter \<open>i\<close> on.\<close>

function spdifInterleave_loop ::
  "nat \<Rightarrow> nat \<Rightarrow> int16_t list \<Rightarrow> int16_t list \<Rightarrow> int32_t list \<Rightarrow> int32_t list option" where
  "spdifInterleave_loop pTx i leftAudioData rightAudioData mem =
     (if i < 128
      then (case spdifInterleave_body pTx i leftAudioData rightAudioData mem of
              None \<Rightarrow> None
            | Some mem' \<Rightarrow> spdifInterleave_loop pTx (i + 4) leftAudioData rightAudioData mem')
      else Some mem)"
  by pat_completeness auto
termination
  by (relation "measure (\<lambda>(pTx, i, l, r, mem). 128 - i)") auto

definition spdifInterleave ::
  "nat \<Rightarrow> int16_t list \<Rightarrow> int16_t list \<Rightarrow> int32_t list \<Rightarrow> int32_t list option" where
  "spdifInterleave pTx leftAudioData rightAudioData mem =
     spdifInterleave_loop pTx 0 leftAudioData rightAudioData mem"

section \<open>Transfer geometry\<close>

text \<open>
  \<open>getTxOffset\<close> reads the register \<open>eDMA.TCD->SADDR\<close>, which the DMA engine
  advances on its own: its value at the time of the call is the first argument.
  The sum \<open>txSourceAddress + sourceBufferSize\<close> is \<open>uint32_t\<close> arithmetic.
\<close>

definition getTxOffset :: "uint32_t \<Rightarrow> uint32_t \<Rightarrow> uint32_t \<Rightarrow> int32_t" where
  "getTxOffset SADDR txSourceAddress sourceBufferSize =
     (if SADDR < txSourceAddress + sourceBufferSize then 0x0100 else 0x0000)"

section \<open>Queues, producer and interrupt handler\<close>

text \<open>
  Modelled from the spec: the array sizes declared in the headers \<open>spdifTx.h\<close> and
  \<open>AudioStream.h\<close>, which are not among the sources: two slots per channel queue and
  128 samples per block. \<open>fifoTx[512]\<close> is declared in the source. A state is well
  formed when its arrays have these sizes.
\<close>

definition well_formed :: "spdif_state \<Rightarrow> bool" where
  "well_formed s \<longleftrightarrow>
     length (fifoTx s) = 512 \<and> length (silentAudio s) = 128 \<and>
     length (leftAudioBuffer s) = 2 \<and> length (rightAudioBuffer s) = 2 \<and>
     (\<forall>n. length (pool s n) = 128)"

text \<open>The statics before the constructor runs: static storage is zero-initialised.\<close>

definition static_storage :: "(nat \<Rightarrow> int16_t list) \<Rightarrow> spdif_state" where
  "static_storage p =
     \<lparr>fifoTx = replicate 512 0, silentAudio = replicate 128 0,
      leftAudioBuffer = replicate 2 Nullptr, rightAudioBuffer = replicate 2 Nullptr,
      pool = p, released = []\<rparr>"

text \<open>
  \<open>init\<close>: \<open>memset(&silentAudio, 0, sizeof(silentAudio))\<close> and the loop that clears
  both queues. The configuration of the DMA engine and of the S/PDIF registers, and the
  \<open>memset\<close> of the base class's \<open>inputQueueArray\<close>, touch no state of this model.
\<close>

definition init :: "spdif_state \<Rightarrow> spdif_state" where
  "init s =
     fold (\<lambda>i s. s\<lparr>leftAudioBuffer := (leftAudioBuffer s)[i := Nullptr],
                    rightAudioBuffer := (rightAudioBuffer s)[i := Nullptr]\<rparr>)
          [0..<2]
          (s\<lparr>silentAudio := map (\<lambda>_. 0) (silentAudio s)\<rparr>)"

text \<open>
  \<open>(buf[0]) ?: &silentAudio\<close>: the front of a queue, or the address of \<open>silentAudio\<close>
  when the front slot is null.
\<close>

definition front_or_silent :: "audio_block_ptr list \<Rightarrow> audio_block_ptr" where
  "front_or_silent buf = (if buf ! 0 \<noteq> Nullptr then buf ! 0 else SilentAudio)"

text \<open>
  The end of \<open>dmaISR\<close>: when neither consumed block is \<open>silentAudio\<close>, both are
  released and both queues move up by one slot.
\<close>

definition release_and_rotate ::
  "audio_block_ptr \<Rightarrow> audio_block_ptr \<Rightarrow> spdif_state \<Rightarrow> spdif_state" where
  "release_and_rotate leftAudio rightAudio s =
     (if leftAudio \<noteq> SilentAudio \<and> rightAudio \<noteq> SilentAudio
      then s\<lparr>released := released s @ [leftAudio, rightAudio],
             leftAudioBuffer := (leftAudioBuffer s)[0 := leftAudioBuffer s ! 1, 1 := Nullptr],
             rightAudioBuffer := (rightAudioBuffer s)[0 := rightAudioBuffer s ! 1, 1 := Nullptr]\<rparr>
      else s)"

text \<open>
  \<open>dmaISR\<close>. The arguments are the address \<open>&fifoTx[0]\<close> and the value of
  \<open>SADDR\<close> when the handler reads it. \<open>&fifoTx[0] + txOffset\<close> is pointer arithmetic
  in words: the destination window starts at word index \<open>txOffset\<close>. The write to
  \<open>DMA_CINT\<close>, the cache flush and \<open>update_all\<close> touch no state of this model.
\<close>

definition dmaISR :: "uint32_t \<Rightarrow> uint32_t \<Rightarrow> spdif_state \<Rightarrow> spdif_state option" where
  "dmaISR fifoTx_addr SADDR s =
     (let txOffset = getTxOffset SADDR fifoTx_addr 1024;
          leftAudio = front_or_silent (leftAudioBuffer s);
          rightAudio = front_or_silent (rightAudioBuffer s)
      in if sint txOffset < 0 then None
         else
          (case data_of s leftAudio of None \<Rightarrow> None | Some leftData \<Rightarrow>
          (case data_of s rightAudio of None \<Rightarrow> None | Some rightData \<Rightarrow>
          (case spdifInterleave (nat (sint txOffset)) leftData rightData (fifoTx s) of
             None \<Rightarrow> None
           | Some mem \<Rightarrow> Some (release_and_rotate leftAudio rightAudio (s\<lparr>fifoTx := mem\<rparr>))))))"

text \<open>
  The "switcheroo" that \<open>update\<close> writes out once per channel: the new queue and
  the new value of the local pointer (\<open>leftAudio\<close> or \<open>rightAudio\<close>).
\<close>

definition switcheroo ::
  "audio_block_ptr list \<Rightarrow> audio_block_ptr \<Rightarrow> audio_block_ptr list \<times> audio_block_ptr" where
  "switcheroo buf audio =
     (if buf ! 0 = Nullptr then (buf[0 := audio], Nullptr)
      else if buf ! 1 = Nullptr then (buf[1 := audio], Nullptr)
      else (let shiftTemp = buf ! 0 in (buf[0 := buf ! 1, 1 := audio], shiftTemp)))"

text \<open>The end of \<open>update\<close>, after \<open>__enable_irq\<close>.\<close>

definition release_both :: "audio_block_ptr \<Rightarrow> audio_block_ptr \<Rightarrow> spdif_state \<Rightarrow> spdif_state" where
  "release_both leftAudio rightAudio s =
     (if leftAudio \<noteq> Nullptr \<and> rightAudio \<noteq> Nullptr
      then s\<lparr>released := released s @ [leftAudio, rightAudio]\<rparr>
      else s)"

text \<open>
  \<open>update\<close>. The arguments are what the two calls of \<open>receiveReadOnly\<close> return.
\<close>

definition update :: "audio_block_ptr \<Rightarrow> audio_block_ptr \<Rightarrow> spdif_state \<Rightarrow> spdif_state" where
  "update rxLeft rxRight s =
     (if rxLeft \<noteq> Nullptr \<and> rxRight \<noteq> Nullptr
      then (let l = switcheroo (leftAudioBuffer s) rxLeft;
                r = switcheroo (rightAudioBuffer s) rxRight
            in release_both (snd l) (snd r)
                 (s\<lparr>leftAudioBuffer := fst l, rightAudioBuffer := fst r\<rparr>))
      else release_both rxLeft rxRight s)"

section \<open>Runs of the driver\<close>

text \<open>
  After \<open>init\<close> the audio graph calls \<open>update\<close> and the DMA engine fires the handler,
  in any order. \<open>receiveReadOnly\<close> returns null or a block of the pool, never the
  address of \<open>silentAudio\<close>.
\<close>

datatype event = Update audio_block_ptr audio_block_ptr | Isr uint32_t

fun from_graph :: "event \<Rightarrow> bool" where
  "from_graph (Update l r) = (l \<noteq> SilentAudio \<and> r \<noteq> SilentAudio)"
| "from_graph (Isr a) = True"

fun step :: "uint32_t \<Rightarrow> event \<Rightarrow> spdif_state \<Rightarrow> spdif_state option" where
  "step fifoTx_addr (Update l r) s = Some (update l r s)"
| "step fifoTx_addr (Isr SADDR) s = dmaISR fifoTx_addr SADDR s"

fun run :: "uint32_t \<Rightarrow> event list \<Rightarrow> spdif_state \<Rightarrow> spdif_state option" where
  "run fifoTx_addr [] s = Some s"
| "run fifoTx_addr (e # es) s =
     (case step fifoTx_addr e s of None \<Rightarrow> None | Some s' \<Rightarrow> run fifoTx_addr es s')"

section \<open>Properties of the queues\<close>

text \<open>The number of occupied slots and the pending blocks, front first.\<close>

definition pending :: "audio_block_ptr list \<Rightarrow> audio_block_ptr list" where
  "pending buf = filter (\<lambda>p. p \<noteq> Nullptr) buf"

definition occupied :: "audio_block_ptr list \<Rightarrow> nat" where
  "occupied buf = length (pending buf)"

text \<open>A null entry never precedes a non-null entry.\<close>

definition ordered :: "audio_block_ptr list \<Rightarrow> bool" where
  "ordered buf \<longleftrightarrow> (buf ! 0 = Nullptr \<longrightarrow> buf ! 1 = Nullptr)"

text \<open>Both channels have the same slots occupied.\<close>

definition lockstep :: "spdif_state \<Rightarrow> bool" where
  "lockstep s \<longleftrightarrow>
     (leftAudioBuffer s ! 0 = Nullptr \<longleftrightarrow> rightAudioBuffer s ! 0 = Nullptr) \<and>
     (leftAudioBuffer s ! 1 = Nullptr \<longleftrightarrow> rightAudioBuffer s ! 1 = Nullptr)"

text \<open>The interleaved window: word \<open>k\<close> of the 256 words the encoder produces.\<close>

definition interleaved :: "int16_t list \<Rightarrow> int16_t list \<Rightarrow> nat \<Rightarrow> int32_t" where
  "interleaved l r k = (if even k then shl8 (l ! (k div 2)) else shl8 (r ! (k div 2)))"

text \<open>
  The invariant of the queues along a run: the arrays have their sizes, both channels
  have the same slots occupied, no null entry precedes a block, and no slot holds the
  address of \<open>silentAudio\<close>.
\<close>

definition queue_inv :: "spdif_state \<Rightarrow> bool" where
  "queue_inv s \<longleftrightarrow>
     well_formed s \<and> lockstep s \<and>
     ordered (leftAudioBuffer s) \<and> ordered (rightAudioBuffer s) \<and>
     SilentAudio \<notin> set (leftAudioBuffer s) \<and> SilentAudio \<notin> set (rightAudioBuffer s)"

section \<open>Example states\<close>

text \<open>Both queues full: the pairs (1, 2) and (3, 4) are pending.\<close>

definition two_pairs :: spdif_state where
  "two_pairs = (static_storage (\<lambda>_. replicate 128 0))
     \<lparr>leftAudioBuffer := [Block 1, Block 3], rightAudioBuffer := [Block 2, Block 4]\<rparr>"

text \<open>A block pending on the right channel only.\<close>

definition half_empty :: spdif_state where
  "half_empty = (static_storage (\<lambda>_. replicate 128 1))
     \<lparr>rightAudioBuffer := [Block 2, Nullptr]\<rparr>"

section \<open>The encoder: auxiliary facts\<close>

declare spdifInterleave_loop.simps [simp del]

lemma sint16_bounds: "- 32768 \<le> sint (x :: 16 word) \<and> sint x < 32768"
  using sint_ge [of x] sint_lt [of x] by simp

lemma sint_scast_16_32: "sint (scast (x :: 16 word) :: 32 word) = sint x"
  by (rule sint_up_scast) (simp add: is_up)

lemma sint_shl8: "sint (shl8 x) = sint x * 256"
proof -
  have "sint (shl8 x) = signed_take_bit 31 (sint x * 256)"
    by (simp add: shl8_def push_bit_eq_mult sint_word_ariths sint_scast_16_32)
  also have "\<dots> = sint x * 256"
    using sint16_bounds [of x] by (intro signed_take_bit_int_eq_self) simp_all
  finally show ?thesis .
qed

lemma signed_drop_bit_shl8: "signed_drop_bit 8 (shl8 x) = scast x"
  unfolding shl8_def
  by (rule bit_word_eqI) (auto simp add: bit_simps)

lemma put_Some:
  "pTx + k < length mem \<Longrightarrow> j < length d \<Longrightarrow>
   put pTx k d j mem = Some (mem[pTx + k := shl8 (d ! j)])"
  by (simp add: put_def load16_def store32_def)

lemma body_Some:
  assumes "i + 3 < length l" "i + 3 < length r" "pTx + 2 * i + 7 < length mem"
  shows "spdifInterleave_body pTx i l r mem =
     Some (mem[pTx + 2 * i := shl8 (l ! i), pTx + (2 * i + 1) := shl8 (r ! i),
               pTx + (2 * i + 2) := shl8 (l ! (i + 1)), pTx + (2 * i + 3) := shl8 (r ! (i + 1)),
               pTx + (2 * i + 4) := shl8 (l ! (i + 2)), pTx + (2 * i + 5) := shl8 (r ! (i + 2)),
               pTx + (2 * i + 6) := shl8 (l ! (i + 3)), pTx + (2 * i + 7) := shl8 (r ! (i + 3))])"
  using assms by (simp add: spdifInterleave_body_def put_Some)

lemma div2_facts:
  "(2 * i + 3) div 2 = i + (1::nat)" "(2 * i + 4) div 2 = i + (2::nat)"
  "(2 * i + 5) div 2 = i + (2::nat)" "(2 * i + 6) div 2 = i + (3::nat)"
  "(2 * i + 7) div 2 = i + (3::nat)"
  by arith+

lemma body_nth:
  assumes "i + 3 < length l" "i + 3 < length r" "pTx + 2 * i + 7 < length mem"
  shows "\<exists>m1. spdifInterleave_body pTx i l r mem = Some m1 \<and> length m1 = length mem \<and>
     (\<forall>k < length mem. m1 ! k =
        (if pTx + 2 * i \<le> k \<and> k < pTx + 2 * i + 8 then interleaved l r (k - pTx) else mem ! k))"
proof -
  let ?m1 = "mem[pTx + 2 * i := shl8 (l ! i), pTx + (2 * i + 1) := shl8 (r ! i),
               pTx + (2 * i + 2) := shl8 (l ! (i + 1)), pTx + (2 * i + 3) := shl8 (r ! (i + 1)),
               pTx + (2 * i + 4) := shl8 (l ! (i + 2)), pTx + (2 * i + 5) := shl8 (r ! (i + 2)),
               pTx + (2 * i + 6) := shl8 (l ! (i + 3)), pTx + (2 * i + 7) := shl8 (r ! (i + 3))]"
  have b: "spdifInterleave_body pTx i l r mem = Some ?m1"
    using assms by (rule body_Some)
  have len: "length ?m1 = length mem" by simp
  have nth: "?m1 ! k = (if pTx + 2 * i \<le> k \<and> k < pTx + 2 * i + 8
                        then interleaved l r (k - pTx) else mem ! k)"
    if k: "k < length mem" for k
  proof (cases "pTx + 2 * i \<le> k \<and> k < pTx + 2 * i + 8")
    case False
    then show ?thesis by (auto simp add: nth_list_update)
  next
    case True
    then consider "k = pTx + 2 * i" | "k = pTx + (2 * i + 1)" | "k = pTx + (2 * i + 2)"
      | "k = pTx + (2 * i + 3)" | "k = pTx + (2 * i + 4)" | "k = pTx + (2 * i + 5)"
      | "k = pTx + (2 * i + 6)" | "k = pTx + (2 * i + 7)"
      by arith
    then show ?thesis
      using k by cases (simp_all add: nth_list_update interleaved_def div2_facts)
  qed
  show ?thesis using b len nth by blast
qed

text \<open>
  The loop, started at a multiple of four, runs to the end without leaving the arrays,
  fills the rest of the window and changes nothing else.
\<close>

lemma loop_nth:
  "i \<le> 128 \<Longrightarrow> 4 dvd i \<Longrightarrow> length l = 128 \<Longrightarrow> length r = 128 \<Longrightarrow> pTx + 256 \<le> length mem \<Longrightarrow>
   \<exists>mem'. spdifInterleave_loop pTx i l r mem = Some mem' \<and> length mem' = length mem \<and>
     (\<forall>k < length mem. mem' ! k =
        (if pTx + 2 * i \<le> k \<and> k < pTx + 256 then interleaved l r (k - pTx) else mem ! k))"
proof (induction pTx i l r mem rule: spdifInterleave_loop.induct)
  case (1 pTx i l r mem)
  show ?case
  proof (cases "i < 128")
    case False
    with "1.prems" have "i = 128" by simp
    then show ?thesis by (auto simp add: spdifInterleave_loop.simps)
  next
    case True
    from True "1.prems"(2) have i4: "i + 4 \<le> 128" by (elim dvdE) arith
    from "1.prems"(2) have d4: "4 dvd (i + 4)" by simp
    have pre: "i + 3 < length l" "i + 3 < length r" "pTx + 2 * i + 7 < length mem"
      using i4 "1.prems" by simp_all
    from body_nth [OF pre] obtain m1 where
      b: "spdifInterleave_body pTx i l r mem = Some m1" and len1: "length m1 = length mem"
      and nth1: "\<forall>k < length mem. m1 ! k =
        (if pTx + 2 * i \<le> k \<and> k < pTx + 2 * i + 8 then interleaved l r (k - pTx) else mem ! k)"
      by blast
    have "pTx + 256 \<le> length m1" using "1.prems" len1 by simp
    from "1.IH" [OF True b i4 d4 "1.prems"(3) "1.prems"(4) this] obtain mem' where
      lp: "spdifInterleave_loop pTx (i + 4) l r m1 = Some mem'" and len': "length mem' = length m1"
      and nth': "\<forall>k < length m1. mem' ! k =
        (if pTx + 2 * (i + 4) \<le> k \<and> k < pTx + 256 then interleaved l r (k - pTx) else m1 ! k)"
      by blast
    have "spdifInterleave_loop pTx i l r mem = Some mem'"
      using True b lp by (subst spdifInterleave_loop.simps) simp
    moreover have "length mem' = length mem" using len' len1 by simp
    moreover have "\<forall>k < length mem. mem' ! k =
        (if pTx + 2 * i \<le> k \<and> k < pTx + 256 then interleaved l r (k - pTx) else mem ! k)"
      using nth' nth1 len1 i4 by auto
    ultimately show ?thesis by blast
  qed
qed

lemma spdifInterleave_nth:
  assumes "length l = 128" "length r = 128" "pTx + 256 \<le> length mem"
  shows "\<exists>mem'. spdifInterleave pTx l r mem = Some mem' \<and> length mem' = length mem \<and>
     (\<forall>k < length mem. mem' ! k =
        (if pTx \<le> k \<and> k < pTx + 256 then interleaved l r (k - pTx) else mem ! k))"
  using loop_nth [of 0 l r pTx mem] assms by (simp add: spdifInterleave_def)


section \<open>The queues: auxiliary facts\<close>

lemma two_slots: "length xs = 2 \<Longrightarrow> \<exists>a b. xs = [a, b]"
  by (cases xs; cases "tl xs") auto

lemma upt_two: "[0..<2] = [0, Suc 0]"
  by (simp add: upt_rec numeral_2_eq_2)

lemma init_eq:
  "init s = s\<lparr>silentAudio := map (\<lambda>_. 0) (silentAudio s),
     leftAudioBuffer := (leftAudioBuffer s)[0 := Nullptr, 1 := Nullptr],
     rightAudioBuffer := (rightAudioBuffer s)[0 := Nullptr, 1 := Nullptr]\<rparr>"
  by (simp add: init_def upt_two)

lemma txBase_cases:
  "0 \<le> sint (getTxOffset sa a n) \<and>
   (nat (sint (getTxOffset sa a n)) = 256 \<or> nat (sint (getTxOffset sa a n)) = 0)"
  by (simp add: getTxOffset_def)

lemma data_of_front_len:
  "well_formed s \<Longrightarrow> \<exists>d. data_of s (front_or_silent buf) = Some d \<and> length d = 128"
  by (cases "buf ! 0") (simp_all add: well_formed_def data_of_def front_or_silent_def)

text \<open>
  On a well-formed state the handler returns: it fills one half of \<open>fifoTx\<close> from the
  two consumed blocks and then releases and rotates, or does not.
\<close>

lemma dmaISR_Some:
  assumes wf: "well_formed s"
  shows "\<exists>ld rd mem.
     data_of s (front_or_silent (leftAudioBuffer s)) = Some ld \<and>
     data_of s (front_or_silent (rightAudioBuffer s)) = Some rd \<and>
     spdifInterleave (nat (sint (getTxOffset sa a 1024))) ld rd (fifoTx s) = Some mem \<and>
     length mem = 512 \<and>
     (\<forall>k < 512. mem ! k =
        (if nat (sint (getTxOffset sa a 1024)) \<le> k \<and> k < nat (sint (getTxOffset sa a 1024)) + 256
         then interleaved ld rd (k - nat (sint (getTxOffset sa a 1024)))
         else fifoTx s ! k)) \<and>
     dmaISR a sa s =
       Some (release_and_rotate (front_or_silent (leftAudioBuffer s))
               (front_or_silent (rightAudioBuffer s)) (s\<lparr>fifoTx := mem\<rparr>))"
proof -
  let ?off = "nat (sint (getTxOffset sa a 1024))"
  from data_of_front_len [OF wf] obtain ld where
    ld: "data_of s (front_or_silent (leftAudioBuffer s)) = Some ld" "length ld = 128" by blast
  from data_of_front_len [OF wf] obtain rd where
    rd: "data_of s (front_or_silent (rightAudioBuffer s)) = Some rd" "length rd = 128" by blast
  have len: "length (fifoTx s) = 512" using wf by (simp add: well_formed_def)
  have off: "0 \<le> sint (getTxOffset sa a 1024)" "?off + 256 \<le> length (fifoTx s)"
    using txBase_cases [of sa a 1024] len by auto
  from spdifInterleave_nth [OF ld(2) rd(2) off(2)] obtain mem where
    m: "spdifInterleave ?off ld rd (fifoTx s) = Some mem" "length mem = length (fifoTx s)"
      "\<forall>k < length (fifoTx s). mem ! k =
        (if ?off \<le> k \<and> k < ?off + 256 then interleaved ld rd (k - ?off) else fifoTx s ! k)"
    by blast
  have "dmaISR a sa s =
       Some (release_and_rotate (front_or_silent (leftAudioBuffer s))
               (front_or_silent (rightAudioBuffer s)) (s\<lparr>fifoTx := mem\<rparr>))"
    using ld(1) rd(1) m(1) off(1) by (simp add: dmaISR_def Let_def)
  with ld(1) rd(1) m len show ?thesis by auto
qed

lemma switcheroo_two:
  "switcheroo [x, y] b =
     (if x = Nullptr then ([b, y], Nullptr)
      else if y = Nullptr then ([x, b], Nullptr) else ([y, b], x))"
  by (simp add: switcheroo_def)


lemma queues_two:
  assumes "well_formed s"
  obtains l0 l1 r0 r1 where "leftAudioBuffer s = [l0, l1]" "rightAudioBuffer s = [r0, r1]"
  using assms two_slots [of "leftAudioBuffer s"] two_slots [of "rightAudioBuffer s"]
  by (auto simp add: well_formed_def)

text \<open>The handler on a well-formed state, with the queues written out.\<close>

lemma dmaISR_queues:
  assumes wf: "well_formed s"
    and l: "leftAudioBuffer s = [l0, l1]" and r: "rightAudioBuffer s = [r0, r1]"
  shows "\<exists>s'. dmaISR a sa s = Some s' \<and> well_formed s' \<and> pool s' = pool s \<and>
     silentAudio s' = silentAudio s \<and>
     (if l0 \<noteq> Nullptr \<and> l0 \<noteq> SilentAudio \<and> r0 \<noteq> Nullptr \<and> r0 \<noteq> SilentAudio
      then leftAudioBuffer s' = [l1, Nullptr] \<and> rightAudioBuffer s' = [r1, Nullptr] \<and>
           released s' = released s @ [l0, r0]
      else leftAudioBuffer s' = [l0, l1] \<and> rightAudioBuffer s' = [r0, r1] \<and>
           released s' = released s)"
proof -
  from dmaISR_Some [OF wf, of sa a] obtain mem where
    m: "length mem = 512"
    and d: "dmaISR a sa s =
       Some (release_and_rotate (front_or_silent (leftAudioBuffer s))
               (front_or_silent (rightAudioBuffer s)) (s\<lparr>fifoTx := mem\<rparr>))"
    by blast
  show ?thesis
    using wf m unfolding d l r
    by (simp add: release_and_rotate_def front_or_silent_def well_formed_def l r)
qed

lemma update_left:
  assumes "leftAudioBuffer s = [l0, l1]"
  shows "leftAudioBuffer (update rxL rxR s) =
     (if rxL \<noteq> Nullptr \<and> rxR \<noteq> Nullptr
      then (if l0 = Nullptr then [rxL, l1] else if l1 = Nullptr then [l0, rxL] else [l1, rxL])
      else [l0, l1])"
  using assms by (simp add: update_def Let_def release_both_def switcheroo_two)

lemma update_right:
  assumes "rightAudioBuffer s = [r0, r1]"
  shows "rightAudioBuffer (update rxL rxR s) =
     (if rxL \<noteq> Nullptr \<and> rxR \<noteq> Nullptr
      then (if r0 = Nullptr then [rxR, r1] else if r1 = Nullptr then [r0, rxR] else [r1, rxR])
      else [r0, r1])"
  using assms by (simp add: update_def Let_def release_both_def switcheroo_two)

lemma update_other:
  "fifoTx (update rxL rxR s) = fifoTx s" "silentAudio (update rxL rxR s) = silentAudio s"
  "pool (update rxL rxR s) = pool s"
  by (simp_all add: update_def Let_def release_both_def)

lemma well_formed_update:
  assumes "well_formed s"
  shows "well_formed (update rxL rxR s)"
proof -
  from assms obtain l0 l1 r0 r1 where
    q: "leftAudioBuffer s = [l0, l1]" "rightAudioBuffer s = [r0, r1]"
    by (rule queues_two)
  show ?thesis
    using assms
    by (simp add: well_formed_def update_left [OF q(1)] update_right [OF q(2)] update_other)
qed

lemma well_formed_init: "well_formed s \<Longrightarrow> well_formed (init s)"
  by (simp add: well_formed_def init_eq)

lemma well_formed_two_pairs: "well_formed two_pairs"
  by (simp add: two_pairs_def well_formed_def static_storage_def)

lemma well_formed_half_empty: "well_formed half_empty"
  by (simp add: half_empty_def well_formed_def static_storage_def)


section \<open>The invariant along a run\<close>


lemma well_formed_static: "well_formed (static_storage (\<lambda>_. replicate 128 0))"
  by (simp add: well_formed_def static_storage_def)

lemma queue_inv_init:
  assumes "well_formed s"
  shows "queue_inv (init s)"
proof -
  from assms obtain l0 l1 r0 r1 where
    q: "leftAudioBuffer s = [l0, l1]" "rightAudioBuffer s = [r0, r1]"
    by (rule queues_two)
  have "leftAudioBuffer (init s) = [Nullptr, Nullptr]" "rightAudioBuffer (init s) = [Nullptr, Nullptr]"
    using q by (simp_all add: init_eq)
  with well_formed_init [OF assms] show ?thesis
    by (simp add: queue_inv_def lockstep_def ordered_def)
qed

lemma queue_inv_update:
  assumes "queue_inv s" "rxL \<noteq> SilentAudio" "rxR \<noteq> SilentAudio"
  shows "queue_inv (update rxL rxR s)"
proof -
  from assms(1) have wf: "well_formed s" by (simp add: queue_inv_def)
  then obtain l0 l1 r0 r1 where
    q: "leftAudioBuffer s = [l0, l1]" "rightAudioBuffer s = [r0, r1]"
    by (rule queues_two)
  show ?thesis
    using assms q well_formed_update [OF wf, of rxL rxR]
    by (auto simp add: queue_inv_def lockstep_def ordered_def
        update_left [OF q(1)] update_right [OF q(2)])
qed

lemma queue_inv_dmaISR:
  assumes "queue_inv s"
  shows "\<exists>s'. dmaISR a sa s = Some s' \<and> queue_inv s'"
proof -
  from assms have wf: "well_formed s" by (simp add: queue_inv_def)
  then obtain l0 l1 r0 r1 where
    q: "leftAudioBuffer s = [l0, l1]" "rightAudioBuffer s = [r0, r1]"
    by (rule queues_two)
  from dmaISR_queues [OF wf q, of a sa] obtain s' where
    d: "dmaISR a sa s = Some s'" and wf': "well_formed s'"
    and c: "if l0 \<noteq> Nullptr \<and> l0 \<noteq> SilentAudio \<and> r0 \<noteq> Nullptr \<and> r0 \<noteq> SilentAudio
      then leftAudioBuffer s' = [l1, Nullptr] \<and> rightAudioBuffer s' = [r1, Nullptr] \<and>
           released s' = released s @ [l0, r0]
      else leftAudioBuffer s' = [l0, l1] \<and> rightAudioBuffer s' = [r0, r1] \<and>
           released s' = released s"
    by blast
  have "queue_inv s'"
    using assms q wf' c
    by (auto simp add: queue_inv_def lockstep_def ordered_def split: if_splits)
  with d show ?thesis by blast
qed

lemma queue_inv_run:
  "queue_inv s \<Longrightarrow> list_all from_graph evs \<Longrightarrow> \<exists>s'. run a evs s = Some s' \<and> queue_inv s'"
proof (induction evs arbitrary: s)
  case Nil
  then show ?case by simp
next
  case (Cons e evs)
  show ?case
  proof (cases e)
    case (Update l r)
    with Cons.prems have "queue_inv (update l r s)"
      by (simp add: queue_inv_update)
    from Cons.IH [OF this] Cons.prems(2) Update show ?thesis by simp
  next
    case (Isr sa)
    from queue_inv_dmaISR [OF Cons.prems(1), of a sa] obtain s1 where
      "dmaISR a sa s = Some s1" "queue_inv s1" by blast
    with Cons.IH [OF this(2)] Cons.prems(2) Isr show ?thesis by simp
  qed
qed

lemma run_init:
  "well_formed s0 \<Longrightarrow> list_all from_graph evs \<Longrightarrow>
   \<exists>s. run a evs (init s0) = Some s \<and> queue_inv s"
  by (rule queue_inv_run) (simp_all add: queue_inv_init)

lemma update_released:
  assumes "leftAudioBuffer s = [l0, l1]" "rightAudioBuffer s = [r0, r1]"
  shows "released (update rxL rxR s) =
     (if rxL \<noteq> Nullptr \<and> rxR \<noteq> Nullptr \<and> l0 \<noteq> Nullptr \<and> l1 \<noteq> Nullptr \<and>
         r0 \<noteq> Nullptr \<and> r1 \<noteq> Nullptr
      then released s @ [l0, r0] else released s)"
  using assms by (simp add: update_def Let_def release_both_def switcheroo_two)

lemma run_two_updates:
  "run a [Update (Block 1) (Block 2), Update (Block 3) (Block 4)]
     (init (static_storage (\<lambda>_. replicate 128 0))) =
   Some \<lparr>fifoTx = replicate 512 0, silentAudio = replicate 128 0,
      leftAudioBuffer = [Block 1, Block 3], rightAudioBuffer = [Block 2, Block 4],
      pool = (\<lambda>_. replicate 128 0), released = []\<rparr>"
  by (simp add: init_eq static_storage_def update_def switcheroo_def release_both_def Let_def
      numeral_2_eq_2)

section \<open>The encoder outside its window\<close>

lemma body_None:
  assumes "length mem \<le> pTx + 2 * i + 7"
  shows "spdifInterleave_body pTx i l r mem = None"
  using assms
  by (auto simp add: spdifInterleave_body_def put_def load16_def store32_def
      Option.bind_eq_None_conv split: option.splits if_splits)

lemma body_length:
  "spdifInterleave_body pTx i l r mem = Some m1 \<Longrightarrow> length m1 = length mem"
  by (auto simp add: spdifInterleave_body_def put_def load16_def store32_def
      Option.bind_eq_Some_conv split: option.splits if_splits)

lemma loop_None:
  "i < 128 \<Longrightarrow> 4 dvd i \<Longrightarrow> length mem < pTx + 256 \<Longrightarrow>
   spdifInterleave_loop pTx i l r mem = None"
proof (induction pTx i l r mem rule: spdifInterleave_loop.induct)
  case (1 pTx i l r mem)
  show ?case
  proof (cases "spdifInterleave_body pTx i l r mem")
    case None
    with "1.prems"(1) show ?thesis by (subst spdifInterleave_loop.simps) simp
  next
    case (Some m1)
    then have len: "length m1 = length mem" by (rule body_length)
    have "\<not> length mem \<le> pTx + 2 * i + 7"
      using Some body_None [of mem pTx i l r] by auto
    with "1.prems"(3) have "2 * i + 8 < 256" by arith
    then have lt: "i + 4 < 128" by arith
    have "spdifInterleave_loop pTx (i + 4) l r m1 = None"
      using "1.IH" [OF "1.prems"(1) Some lt] "1.prems"(2,3) len by simp
    with "1.prems"(1) Some show ?thesis by (subst spdifInterleave_loop.simps) simp
  qed
qed

lemma spdifInterleave_None:
  "length mem < pTx + 256 \<Longrightarrow> spdifInterleave pTx l r mem = None"
  using loop_None [of 0 mem pTx l r] by (simp add: spdifInterleave_def)

text \<open>What a firing of the handler leaves in \<open>fifoTx\<close>.\<close>

lemma dmaISR_fill:
  assumes "well_formed s" and "dmaISR a sa s = Some s'"
  shows "\<exists>ld rd.
     data_of s (front_or_silent (leftAudioBuffer s)) = Some ld \<and>
     data_of s (front_or_silent (rightAudioBuffer s)) = Some rd \<and>
     spdifInterleave (nat (sint (getTxOffset sa a 1024))) ld rd (fifoTx s) = Some (fifoTx s')"
proof -
  from dmaISR_Some [OF assms(1), of sa a] obtain ld rd mem where
    ld: "data_of s (front_or_silent (leftAudioBuffer s)) = Some ld"
    and rd: "data_of s (front_or_silent (rightAudioBuffer s)) = Some rd"
    and m: "spdifInterleave (nat (sint (getTxOffset sa a 1024))) ld rd (fifoTx s) = Some mem"
    and d: "dmaISR a sa s =
       Some (release_and_rotate (front_or_silent (leftAudioBuffer s))
               (front_or_silent (rightAudioBuffer s)) (s\<lparr>fifoTx := mem\<rparr>))"
    by blast
  from d assms(2) have "fifoTx s' = mem"
    by (auto simp add: release_and_rotate_def)
  with ld rd m show ?thesis by simp
qed

section \<open>The claims\<close>

text \<open>
  C1. When both queues have a real block at slot 0 (neither null nor \<open>silentAudio\<close>),
  a firing of \<open>dmaISR\<close> returns, releases exactly these two blocks, left then right,
  and moves each queue up by one: slot 0 receives the old slot 1 and slot 1 becomes null.
\<close>

theorem dmaISR_releases_and_rotates:
  assumes "well_formed s"
    and "leftAudioBuffer s ! 0 \<noteq> Nullptr" "leftAudioBuffer s ! 0 \<noteq> SilentAudio"
    and "rightAudioBuffer s ! 0 \<noteq> Nullptr" "rightAudioBuffer s ! 0 \<noteq> SilentAudio"
  shows "\<exists>s'. dmaISR fifoTx_addr SADDR s = Some s' \<and>
           released s' = released s @ [leftAudioBuffer s ! 0, rightAudioBuffer s ! 0] \<and>
           leftAudioBuffer s' = [leftAudioBuffer s ! 1, Nullptr] \<and>
           rightAudioBuffer s' = [rightAudioBuffer s ! 1, Nullptr]"
proof -
  from assms(1) obtain l0 l1 r0 r1 where
    q: "leftAudioBuffer s = [l0, l1]" "rightAudioBuffer s = [r0, r1]"
    by (rule queues_two)
  from dmaISR_queues [OF assms(1) q, of fifoTx_addr SADDR] assms(2-5) q
  show ?thesis by auto
qed

theorem dmaISR_releases_and_rotates_witness:
  "\<exists>s'. dmaISR 0x20200000 0x20200400 two_pairs = Some s' \<and>
      released s' = [Block 1, Block 2] \<and>
      leftAudioBuffer s' = [Block 3, Nullptr] \<and> rightAudioBuffer s' = [Block 4, Nullptr]"
proof -
  have h: "leftAudioBuffer two_pairs ! 0 \<noteq> Nullptr" "leftAudioBuffer two_pairs ! 0 \<noteq> SilentAudio"
    "rightAudioBuffer two_pairs ! 0 \<noteq> Nullptr" "rightAudioBuffer two_pairs ! 0 \<noteq> SilentAudio"
    by (simp_all add: two_pairs_def)
  from dmaISR_releases_and_rotates [OF well_formed_two_pairs h, of "0x20200000" "0x20200400"]
  show ?thesis by (simp add: two_pairs_def static_storage_def)
qed

text \<open>
  C2. After \<open>init\<close> and any sequence of \<open>update\<close> calls and handler firings, each
  queue has at most two occupied slots; and an \<open>update\<close> that delivers both blocks when
  a queue has both slots occupied moves slot 1 into slot 0, puts the new block into
  slot 1, and releases exactly the two evicted blocks (the old slots 0), left then right.
\<close>

theorem update_overrun_evicts_oldest:
  assumes "well_formed s0" "list_all from_graph evs"
  shows "\<exists>s. run fifoTx_addr evs (init s0) = Some s \<and>
     occupied (leftAudioBuffer s) \<le> 2 \<and> occupied (rightAudioBuffer s) \<le> 2 \<and>
     (rxLeft \<noteq> Nullptr \<and> rxRight \<noteq> Nullptr \<and>
      (occupied (leftAudioBuffer s) = 2 \<or> occupied (rightAudioBuffer s) = 2) \<longrightarrow>
        leftAudioBuffer (update rxLeft rxRight s) = [leftAudioBuffer s ! 1, rxLeft] \<and>
        rightAudioBuffer (update rxLeft rxRight s) = [rightAudioBuffer s ! 1, rxRight] \<and>
        released (update rxLeft rxRight s) =
          released s @ [leftAudioBuffer s ! 0, rightAudioBuffer s ! 0])"
proof -
  from run_init [OF assms, of fifoTx_addr] obtain s where
    r: "run fifoTx_addr evs (init s0) = Some s" and inv: "queue_inv s"
    by blast
  from inv have "well_formed s" by (simp add: queue_inv_def)
  then obtain l0 l1 r0 r1 where
    q: "leftAudioBuffer s = [l0, l1]" "rightAudioBuffer s = [r0, r1]"
    by (rule queues_two)
  have o: "occupied (leftAudioBuffer s) \<le> 2 \<and> occupied (rightAudioBuffer s) \<le> 2"
    using q by (simp add: occupied_def pending_def)
  have full: "l0 \<noteq> Nullptr \<and> l1 \<noteq> Nullptr \<and> r0 \<noteq> Nullptr \<and> r1 \<noteq> Nullptr"
    if "occupied (leftAudioBuffer s) = 2 \<or> occupied (rightAudioBuffer s) = 2"
    using that inv q
    by (auto simp add: occupied_def pending_def queue_inv_def lockstep_def split: if_splits)
  have "rxLeft \<noteq> Nullptr \<and> rxRight \<noteq> Nullptr \<and>
      (occupied (leftAudioBuffer s) = 2 \<or> occupied (rightAudioBuffer s) = 2) \<longrightarrow>
        leftAudioBuffer (update rxLeft rxRight s) = [leftAudioBuffer s ! 1, rxLeft] \<and>
        rightAudioBuffer (update rxLeft rxRight s) = [rightAudioBuffer s ! 1, rxRight] \<and>
        released (update rxLeft rxRight s) =
          released s @ [leftAudioBuffer s ! 0, rightAudioBuffer s ! 0]"
    using full by (auto simp add: update_left [OF q(1)] update_right [OF q(2)]
        update_released [OF q] q)
  with r o show ?thesis by blast
qed

theorem update_overrun_evicts_oldest_witness:
  "\<exists>s. run 0x20200000 [Update (Block 1) (Block 2), Update (Block 3) (Block 4)]
          (init (static_storage (\<lambda>_. replicate 128 0))) = Some s \<and>
     occupied (leftAudioBuffer s) = 2 \<and>
     leftAudioBuffer (update (Block 5) (Block 6) s) = [Block 3, Block 5] \<and>
     rightAudioBuffer (update (Block 5) (Block 6) s) = [Block 4, Block 6] \<and>
     released (update (Block 5) (Block 6) s) = [Block 1, Block 2]"
proof -
  have h: "list_all from_graph [Update (Block 1) (Block 2), Update (Block 3) (Block 4)]"
    by simp
  from update_overrun_evicts_oldest [OF well_formed_static h, where fifoTx_addr = "0x20200000"
      and rxLeft = "Block 5" and rxRight = "Block 6"]
  show ?thesis
    unfolding run_two_updates by (simp add: occupied_def pending_def)
qed

text \<open>
  C3. A firing of \<open>dmaISR\<close> on a well-formed state returns; a channel whose slot 0 is
  null is encoded from the data of \<open>silentAudio\<close>; the handler never passes
  \<open>silentAudio\<close> to \<open>release\<close>; and when either consumed block is \<open>silentAudio\<close>,
  nothing is released and both queues stay as they are.
\<close>

theorem dmaISR_silence:
  assumes "well_formed s"
  shows "\<exists>s' leftData rightData.
     dmaISR fifoTx_addr SADDR s = Some s' \<and>
     spdifInterleave (nat (sint (getTxOffset SADDR fifoTx_addr 1024))) leftData rightData (fifoTx s)
       = Some (fifoTx s') \<and>
     (leftAudioBuffer s ! 0 = Nullptr \<longrightarrow> leftData = silentAudio s) \<and>
     (rightAudioBuffer s ! 0 = Nullptr \<longrightarrow> rightData = silentAudio s) \<and>
     (\<exists>new. released s' = released s @ new \<and> SilentAudio \<notin> set new) \<and>
     (front_or_silent (leftAudioBuffer s) = SilentAudio \<or>
      front_or_silent (rightAudioBuffer s) = SilentAudio \<longrightarrow>
        released s' = released s \<and>
        leftAudioBuffer s' = leftAudioBuffer s \<and> rightAudioBuffer s' = rightAudioBuffer s)"
proof -
  let ?L = "front_or_silent (leftAudioBuffer s)" and ?R = "front_or_silent (rightAudioBuffer s)"
  from dmaISR_Some [OF assms, of SADDR fifoTx_addr] obtain ld rd mem where
    ld: "data_of s ?L = Some ld" and rd: "data_of s ?R = Some rd"
    and m: "spdifInterleave (nat (sint (getTxOffset SADDR fifoTx_addr 1024))) ld rd (fifoTx s)
             = Some mem"
    and d: "dmaISR fifoTx_addr SADDR s = Some (release_and_rotate ?L ?R (s\<lparr>fifoTx := mem\<rparr>))"
    by blast
  let ?s' = "release_and_rotate ?L ?R (s\<lparr>fifoTx := mem\<rparr>)"
  have f: "fifoTx ?s' = mem" by (simp add: release_and_rotate_def)
  have 1: "leftAudioBuffer s ! 0 = Nullptr \<longrightarrow> ld = silentAudio s"
    using ld by (auto simp add: front_or_silent_def data_of_def)
  have 2: "rightAudioBuffer s ! 0 = Nullptr \<longrightarrow> rd = silentAudio s"
    using rd by (auto simp add: front_or_silent_def data_of_def)
  have 3: "\<exists>new. released ?s' = released s @ new \<and> SilentAudio \<notin> set new"
    by (auto simp add: release_and_rotate_def)
  have 4: "?L = SilentAudio \<or> ?R = SilentAudio \<longrightarrow>
        released ?s' = released s \<and>
        leftAudioBuffer ?s' = leftAudioBuffer s \<and> rightAudioBuffer ?s' = rightAudioBuffer s"
    by (auto simp add: release_and_rotate_def)
  from d m f 1 2 3 4 show ?thesis by (intro exI [of _ ?s'] exI [of _ ld] exI [of _ rd]) simp
qed

theorem dmaISR_silence_witness:
  "\<exists>s' leftData rightData.
     dmaISR 0x20200000 0x20200400 half_empty = Some s' \<and>
     spdifInterleave 0 leftData rightData (replicate 512 0) = Some (fifoTx s') \<and>
     leftData = replicate 128 0 \<and>
     released s' = [] \<and>
     leftAudioBuffer s' = [Nullptr, Nullptr] \<and> rightAudioBuffer s' = [Block 2, Nullptr]"
proof -
  have off: "nat (sint (getTxOffset 0x20200400 0x20200000 1024)) = 0"
    by (simp add: getTxOffset_def)
  have f: "leftAudioBuffer half_empty = [Nullptr, Nullptr]"
    "rightAudioBuffer half_empty = [Block 2, Nullptr]"
    "silentAudio half_empty = replicate 128 0" "fifoTx half_empty = replicate 512 0"
    "released half_empty = []"
    by (simp_all add: half_empty_def static_storage_def numeral_2_eq_2)
  from dmaISR_silence [OF well_formed_half_empty, where SADDR = "0x20200400" and fifoTx_addr = "0x20200000"]
  show ?thesis
    unfolding off f by (auto simp add: front_or_silent_def)
qed

text \<open>
  C4, as amended. For a buffer of 2048 bytes at \<open>fifoTx_addr\<close> that does not wrap around
  the address space and a source address inside it: an address in the first half (below
  the midpoint) yields the offset \<open>0x0100\<close> of the second half, an address in the second
  half yields \<open>0x0000\<close>, and the address exactly at the midpoint is the first address of
  the second half and yields \<open>0x0000\<close>. The word the engine reads is never inside the
  256-word window that starts at the offset.
\<close>

theorem getTxOffset_other_half:
  assumes "unat fifoTx_addr + 2048 \<le> 2 ^ 32"
    and "unat fifoTx_addr \<le> unat SADDR" "unat SADDR < unat fifoTx_addr + 2048"
  shows "(unat SADDR < unat fifoTx_addr + 1024 \<longrightarrow>
            getTxOffset SADDR fifoTx_addr 1024 = 0x0100) \<and>
         (unat fifoTx_addr + 1024 \<le> unat SADDR \<longrightarrow>
            getTxOffset SADDR fifoTx_addr 1024 = 0x0000) \<and>
         (SADDR = fifoTx_addr + 1024 \<longrightarrow> getTxOffset SADDR fifoTx_addr 1024 = 0x0000) \<and>
         \<not> (nat (sint (getTxOffset SADDR fifoTx_addr 1024))
               \<le> (unat SADDR - unat fifoTx_addr) div 4 \<and>
            (unat SADDR - unat fifoTx_addr) div 4
               < nat (sint (getTxOffset SADDR fifoTx_addr 1024)) + 256)"
proof -
  have mid: "unat (fifoTx_addr + 1024) = unat fifoTx_addr + 1024"
    using assms(1) by (simp add: unat_word_ariths)
  have lt: "SADDR < fifoTx_addr + 1024 \<longleftrightarrow> unat SADDR < unat fifoTx_addr + 1024"
    by (simp add: word_less_nat_alt mid)
  show ?thesis
    using assms(2,3) by (auto simp add: getTxOffset_def lt)
qed

theorem getTxOffset_other_half_witness:
  "getTxOffset 0x202003FF 0x20200000 1024 = 0x0100 \<and>
   getTxOffset 0x20200400 0x20200000 1024 = 0x0000"
proof -
  have a: "unat (0x20200000 :: uint32_t) + 2048 \<le> 2 ^ 32" by simp
  have b: "unat (0x20200000 :: uint32_t) \<le> unat (0x202003FF :: uint32_t)"
    "unat (0x202003FF :: uint32_t) < unat (0x20200000 :: uint32_t) + 2048" by simp_all
  have c: "unat (0x20200000 :: uint32_t) \<le> unat (0x20200400 :: uint32_t)"
    "unat (0x20200400 :: uint32_t) < unat (0x20200000 :: uint32_t) + 2048" by simp_all
  from getTxOffset_other_half [OF a b] getTxOffset_other_half [OF a c] show ?thesis by simp
qed

text \<open>
  C4 as stated says that the midpoint address yields the second half's offset
  \<open>0x0100\<close>. It does not: the comparison is strict.
\<close>

theorem getTxOffset_midpoint_counterexample:
  "getTxOffset (0x20200000 + 1024) 0x20200000 1024 \<noteq> 0x0100"
  by (simp add: getTxOffset_def)

text \<open>
  C5. For 128 left and 128 right samples and a window of 256 words inside the
  destination, \<open>spdifInterleave\<close> returns and, for every \<open>i\<close> below 128, word
  \<open>2 * i\<close> of the window is the left sample \<open>i\<close> shifted left by 8 and word
  \<open>2 * i + 1\<close> is the right sample \<open>i\<close> shifted left by 8; the signed value of each
  word is the sample times 256, without rounding or clamping; and no word outside the
  window changes.
\<close>

theorem spdifInterleave_layout:
  assumes "length leftAudioData = 128" "length rightAudioData = 128" "pTx + 256 \<le> length mem"
  shows "\<exists>mem'. spdifInterleave pTx leftAudioData rightAudioData mem = Some mem' \<and>
           length mem' = length mem \<and>
           (\<forall>i < 128.
              mem' ! (pTx + 2 * i) = push_bit 8 (scast (leftAudioData ! i)) \<and>
              mem' ! (pTx + 2 * i + 1) = push_bit 8 (scast (rightAudioData ! i)) \<and>
              sint (mem' ! (pTx + 2 * i)) = sint (leftAudioData ! i) * 2 ^ 8 \<and>
              sint (mem' ! (pTx + 2 * i + 1)) = sint (rightAudioData ! i) * 2 ^ 8) \<and>
           (\<forall>k < length mem. k < pTx \<or> pTx + 256 \<le> k \<longrightarrow> mem' ! k = mem ! k)"
proof -
  from spdifInterleave_nth [OF assms] obtain mem' where
    r: "spdifInterleave pTx leftAudioData rightAudioData mem = Some mem'"
    and len: "length mem' = length mem"
    and nth: "\<forall>k < length mem. mem' ! k =
        (if pTx \<le> k \<and> k < pTx + 256 then interleaved leftAudioData rightAudioData (k - pTx)
         else mem ! k)"
    by blast
  have a: "mem' ! (pTx + 2 * i) = shl8 (leftAudioData ! i)" if "i < 128" for i
    using nth that assms(3) by (simp add: interleaved_def)
  have b: "mem' ! (pTx + 2 * i + 1) = shl8 (rightAudioData ! i)" if "i < 128" for i
    using nth that assms(3) by (simp add: interleaved_def)
  have c: "mem' ! k = mem ! k" if "k < length mem" "k < pTx \<or> pTx + 256 \<le> k" for k
    using nth that by auto
  have "\<forall>i < 128.
              mem' ! (pTx + 2 * i) = push_bit 8 (scast (leftAudioData ! i)) \<and>
              mem' ! (pTx + 2 * i + 1) = push_bit 8 (scast (rightAudioData ! i)) \<and>
              sint (mem' ! (pTx + 2 * i)) = sint (leftAudioData ! i) * 2 ^ 8 \<and>
              sint (mem' ! (pTx + 2 * i + 1)) = sint (rightAudioData ! i) * 2 ^ 8"
  proof (intro allI impI)
    fix i :: nat assume i: "i < 128"
    have "sint (mem' ! (pTx + 2 * i)) = sint (leftAudioData ! i) * 2 ^ 8"
      using a [OF i] by (simp add: sint_shl8)
    moreover have "sint (mem' ! (pTx + 2 * i + 1)) = sint (rightAudioData ! i) * 2 ^ 8"
      using b [OF i] by (simp add: sint_shl8)
    ultimately show "mem' ! (pTx + 2 * i) = push_bit 8 (scast (leftAudioData ! i)) \<and>
              mem' ! (pTx + 2 * i + 1) = push_bit 8 (scast (rightAudioData ! i)) \<and>
              sint (mem' ! (pTx + 2 * i)) = sint (leftAudioData ! i) * 2 ^ 8 \<and>
              sint (mem' ! (pTx + 2 * i + 1)) = sint (rightAudioData ! i) * 2 ^ 8"
      using a [OF i] b [OF i] by (simp add: shl8_def)
  qed
  with r len c show ?thesis by blast
qed

theorem spdifInterleave_layout_witness:
  "\<exists>mem'. spdifInterleave 256 (replicate 128 (- 32768)) (replicate 128 32767) (replicate 512 0)
             = Some mem' \<and>
     length mem' = 512 \<and>
     sint (mem' ! 262) = - 8388608 \<and> sint (mem' ! 263) = 8388352 \<and> mem' ! 255 = 0"
proof -
  have h: "length (replicate 128 (- 32768 :: int16_t)) = 128"
    "length (replicate 128 (32767 :: int16_t)) = 128"
    "256 + 256 \<le> length (replicate 512 (0 :: int32_t))"
    by simp_all
  from spdifInterleave_layout [OF h] obtain mem' where
    r: "spdifInterleave 256 (replicate 128 (- 32768)) (replicate 128 32767) (replicate 512 0)
             = Some mem'"
    and len: "length mem' = length (replicate 512 (0 :: int32_t))"
    and v: "\<forall>i < 128.
              mem' ! (256 + 2 * i) = push_bit 8 (scast (replicate 128 (- 32768 :: int16_t) ! i)) \<and>
              mem' ! (256 + 2 * i + 1) = push_bit 8 (scast (replicate 128 (32767 :: int16_t) ! i)) \<and>
              sint (mem' ! (256 + 2 * i)) = sint (replicate 128 (- 32768 :: int16_t) ! i) * 2 ^ 8 \<and>
              sint (mem' ! (256 + 2 * i + 1)) = sint (replicate 128 (32767 :: int16_t) ! i) * 2 ^ 8"
    and u: "\<forall>k < length (replicate 512 (0 :: int32_t)). k < 256 \<or> 256 + 256 \<le> k \<longrightarrow>
              mem' ! k = replicate 512 (0 :: int32_t) ! k"
    by blast
  from v [rule_format, of 3] u [rule_format, of 255] r len show ?thesis by simp
qed

text \<open>
  C6. Round trip: an arithmetic right shift by 8 of each word that \<open>spdifInterleave\<close>
  produces gives back the sample it was made from, for every 16-bit sample value.
\<close>

theorem spdifInterleave_round_trip:
  assumes "length leftAudioData = 128" "length rightAudioData = 128" "pTx + 256 \<le> length mem"
  shows "\<exists>mem'. spdifInterleave pTx leftAudioData rightAudioData mem = Some mem' \<and>
           (\<forall>i < 128.
              signed_drop_bit 8 (mem' ! (pTx + 2 * i)) = scast (leftAudioData ! i) \<and>
              signed_drop_bit 8 (mem' ! (pTx + 2 * i + 1)) = scast (rightAudioData ! i) \<and>
              sint (signed_drop_bit 8 (mem' ! (pTx + 2 * i))) = sint (leftAudioData ! i) \<and>
              sint (signed_drop_bit 8 (mem' ! (pTx + 2 * i + 1))) = sint (rightAudioData ! i))"
proof -
  from spdifInterleave_nth [OF assms] obtain mem' where
    r: "spdifInterleave pTx leftAudioData rightAudioData mem = Some mem'"
    and nth: "\<forall>k < length mem. mem' ! k =
        (if pTx \<le> k \<and> k < pTx + 256 then interleaved leftAudioData rightAudioData (k - pTx)
         else mem ! k)"
    by blast
  have a: "mem' ! (pTx + 2 * i) = shl8 (leftAudioData ! i)" if "i < 128" for i
    using nth that assms(3) by (simp add: interleaved_def)
  have b: "mem' ! (pTx + 2 * i + 1) = shl8 (rightAudioData ! i)" if "i < 128" for i
    using nth that assms(3) by (simp add: interleaved_def)
  have "\<forall>i < 128.
              signed_drop_bit 8 (mem' ! (pTx + 2 * i)) = scast (leftAudioData ! i) \<and>
              signed_drop_bit 8 (mem' ! (pTx + 2 * i + 1)) = scast (rightAudioData ! i) \<and>
              sint (signed_drop_bit 8 (mem' ! (pTx + 2 * i))) = sint (leftAudioData ! i) \<and>
              sint (signed_drop_bit 8 (mem' ! (pTx + 2 * i + 1))) = sint (rightAudioData ! i)"
    using a b by (simp add: signed_drop_bit_shl8 sint_scast_16_32)
  with r show ?thesis by blast
qed

theorem spdifInterleave_round_trip_witness:
  "\<exists>mem'. spdifInterleave 0 (replicate 128 (- 32767)) (replicate 128 32767) (replicate 512 0)
             = Some mem' \<and>
     sint (signed_drop_bit 8 (mem' ! 0)) = - 32767 \<and>
     sint (signed_drop_bit 8 (mem' ! 1)) = 32767"
proof -
  have h: "length (replicate 128 (- 32767 :: int16_t)) = 128"
    "length (replicate 128 (32767 :: int16_t)) = 128"
    "0 + 256 \<le> length (replicate 512 (0 :: int32_t))"
    by simp_all
  from spdifInterleave_round_trip [OF h] obtain mem' where
    r: "spdifInterleave 0 (replicate 128 (- 32767)) (replicate 128 32767) (replicate 512 0)
             = Some mem'"
    and v: "\<forall>i < 128.
       signed_drop_bit 8 (mem' ! (0 + 2 * i)) = scast (replicate 128 (- 32767 :: int16_t) ! i) \<and>
       signed_drop_bit 8 (mem' ! (0 + 2 * i + 1)) = scast (replicate 128 (32767 :: int16_t) ! i) \<and>
       sint (signed_drop_bit 8 (mem' ! (0 + 2 * i))) = sint (replicate 128 (- 32767 :: int16_t) ! i) \<and>
       sint (signed_drop_bit 8 (mem' ! (0 + 2 * i + 1))) = sint (replicate 128 (32767 :: int16_t) ! i)"
    by blast
  from v [rule_format, of 0] r show ?thesis by simp
qed

text \<open>
  C7. The claim says that a block received on one channel only is released. The code
  does not do so: after \<open>init\<close>, an \<open>update\<close> that receives block 1 on the left and
  null on the right leaves both queues empty and calls \<open>release\<close> for nothing, so the
  block is neither queued nor released.
\<close>

theorem update_partial_delivery_not_released:
  "leftAudioBuffer (update (Block 1) Nullptr (init (static_storage (\<lambda>_. replicate 128 0))))
     = [Nullptr, Nullptr] \<and>
   rightAudioBuffer (update (Block 1) Nullptr (init (static_storage (\<lambda>_. replicate 128 0))))
     = [Nullptr, Nullptr] \<and>
   released (update (Block 1) Nullptr (init (static_storage (\<lambda>_. replicate 128 0)))) = []"
  by (simp add: update_def release_both_def init_eq static_storage_def numeral_2_eq_2)

text \<open>
  C8. In each queue a null entry never precedes a non-null entry: this holds after
  \<open>init\<close>, and every \<open>update\<close> and every firing of \<open>dmaISR\<close> preserves it.
\<close>

theorem ordered_invariant:
  assumes "well_formed s"
  shows "ordered (leftAudioBuffer (init s)) \<and> ordered (rightAudioBuffer (init s)) \<and>
     (ordered (leftAudioBuffer s) \<longrightarrow> ordered (leftAudioBuffer (update rxLeft rxRight s))) \<and>
     (ordered (rightAudioBuffer s) \<longrightarrow> ordered (rightAudioBuffer (update rxLeft rxRight s))) \<and>
     (\<exists>s'. dmaISR fifoTx_addr SADDR s = Some s' \<and>
        (ordered (leftAudioBuffer s) \<longrightarrow> ordered (leftAudioBuffer s')) \<and>
        (ordered (rightAudioBuffer s) \<longrightarrow> ordered (rightAudioBuffer s')))"
proof -
  from assms obtain l0 l1 r0 r1 where
    q: "leftAudioBuffer s = [l0, l1]" "rightAudioBuffer s = [r0, r1]"
    by (rule queues_two)
  have i: "ordered (leftAudioBuffer (init s)) \<and> ordered (rightAudioBuffer (init s))"
    using q by (simp add: init_eq ordered_def)
  have ul: "ordered (leftAudioBuffer s) \<longrightarrow> ordered (leftAudioBuffer (update rxLeft rxRight s))"
    using q by (simp add: update_left [OF q(1)] ordered_def)
  have ur: "ordered (rightAudioBuffer s) \<longrightarrow> ordered (rightAudioBuffer (update rxLeft rxRight s))"
    using q by (simp add: update_right [OF q(2)] ordered_def)
  from dmaISR_queues [OF assms q, of fifoTx_addr SADDR] obtain s' where
    d: "dmaISR fifoTx_addr SADDR s = Some s'"
    and c: "if l0 \<noteq> Nullptr \<and> l0 \<noteq> SilentAudio \<and> r0 \<noteq> Nullptr \<and> r0 \<noteq> SilentAudio
      then leftAudioBuffer s' = [l1, Nullptr] \<and> rightAudioBuffer s' = [r1, Nullptr] \<and>
           released s' = released s @ [l0, r0]
      else leftAudioBuffer s' = [l0, l1] \<and> rightAudioBuffer s' = [r0, r1] \<and>
           released s' = released s"
    by blast
  have "(ordered (leftAudioBuffer s) \<longrightarrow> ordered (leftAudioBuffer s')) \<and>
        (ordered (rightAudioBuffer s) \<longrightarrow> ordered (rightAudioBuffer s'))"
    using c q by (auto simp add: ordered_def split: if_splits)
  with i ul ur d show ?thesis by blast
qed

theorem ordered_invariant_witness:
  "ordered (leftAudioBuffer (init two_pairs)) \<and> ordered (rightAudioBuffer (init two_pairs)) \<and>
   ordered (leftAudioBuffer (update (Block 5) (Block 6) two_pairs)) \<and>
   ordered (rightAudioBuffer (update (Block 5) (Block 6) two_pairs)) \<and>
   (\<exists>s'. dmaISR 0x20200000 0x20200400 two_pairs = Some s' \<and>
      ordered (leftAudioBuffer s') \<and> ordered (rightAudioBuffer s'))"
proof -
  have o: "ordered (leftAudioBuffer two_pairs)" "ordered (rightAudioBuffer two_pairs)"
    by (simp_all add: ordered_def two_pairs_def)
  from ordered_invariant [OF well_formed_two_pairs, where fifoTx_addr = "0x20200000"
      and SADDR = "0x20200400" and rxLeft = "Block 5" and rxRight = "Block 6"] o
  show ?thesis by simp
qed

text \<open>
  C9. After \<open>init\<close> and any sequence of \<open>update\<close> calls and handler firings, both
  queues have the same slots occupied, and each queue is its pending blocks, front
  first, followed by nulls. An \<open>update\<close> either appends one block at the back of both
  queues (dropping the front of a full queue) or leaves both queues as they are. A firing
  of \<open>dmaISR\<close> either encodes, releases and removes the front block of both queues, or
  releases nothing and leaves both queues as they are.
\<close>

theorem lockstep_fifo:
  assumes "well_formed s0" "list_all from_graph evs"
  shows "\<exists>s. run fifoTx_addr evs (init s0) = Some s \<and>
     lockstep s \<and> occupied (leftAudioBuffer s) = occupied (rightAudioBuffer s) \<and>
     leftAudioBuffer s =
       pending (leftAudioBuffer s) @ replicate (2 - occupied (leftAudioBuffer s)) Nullptr \<and>
     rightAudioBuffer s =
       pending (rightAudioBuffer s) @ replicate (2 - occupied (rightAudioBuffer s)) Nullptr \<and>
     (if rxLeft \<noteq> Nullptr \<and> rxRight \<noteq> Nullptr
      then pending (leftAudioBuffer (update rxLeft rxRight s)) =
             (if occupied (leftAudioBuffer s) = 2 then tl (pending (leftAudioBuffer s))
              else pending (leftAudioBuffer s)) @ [rxLeft] \<and>
           pending (rightAudioBuffer (update rxLeft rxRight s)) =
             (if occupied (rightAudioBuffer s) = 2 then tl (pending (rightAudioBuffer s))
              else pending (rightAudioBuffer s)) @ [rxRight]
      else leftAudioBuffer (update rxLeft rxRight s) = leftAudioBuffer s \<and>
           rightAudioBuffer (update rxLeft rxRight s) = rightAudioBuffer s) \<and>
     (\<exists>s'. dmaISR fifoTx_addr SADDR s = Some s' \<and>
        (if pending (leftAudioBuffer s) \<noteq> [] \<and> pending (rightAudioBuffer s) \<noteq> []
         then (\<exists>ld rd.
                 data_of s (hd (pending (leftAudioBuffer s))) = Some ld \<and>
                 data_of s (hd (pending (rightAudioBuffer s))) = Some rd \<and>
                 spdifInterleave (nat (sint (getTxOffset SADDR fifoTx_addr 1024))) ld rd (fifoTx s)
                   = Some (fifoTx s')) \<and>
              released s' =
                released s @ [hd (pending (leftAudioBuffer s)), hd (pending (rightAudioBuffer s))] \<and>
              pending (leftAudioBuffer s') = tl (pending (leftAudioBuffer s)) \<and>
              pending (rightAudioBuffer s') = tl (pending (rightAudioBuffer s))
         else released s' = released s \<and>
              leftAudioBuffer s' = leftAudioBuffer s \<and>
              rightAudioBuffer s' = rightAudioBuffer s))"
proof -
  from run_init [OF assms, of fifoTx_addr] obtain s where
    r: "run fifoTx_addr evs (init s0) = Some s" and inv: "queue_inv s"
    by blast
  from inv have wf: "well_formed s" by (simp add: queue_inv_def)
  then obtain l0 l1 r0 r1 where
    q: "leftAudioBuffer s = [l0, l1]" "rightAudioBuffer s = [r0, r1]"
    by (rule queues_two)
  from inv q have i: "(l0 = Nullptr) = (r0 = Nullptr)" "(l1 = Nullptr) = (r1 = Nullptr)"
    "l0 = Nullptr \<longrightarrow> l1 = Nullptr" "r0 = Nullptr \<longrightarrow> r1 = Nullptr"
    "l0 \<noteq> SilentAudio" "r0 \<noteq> SilentAudio"
    by (auto simp add: queue_inv_def lockstep_def ordered_def)
  have 1: "lockstep s" using inv by (simp add: queue_inv_def)
  have 2: "occupied (leftAudioBuffer s) = occupied (rightAudioBuffer s)"
    using i q by (simp add: occupied_def pending_def)
  have 3: "leftAudioBuffer s =
       pending (leftAudioBuffer s) @ replicate (2 - occupied (leftAudioBuffer s)) Nullptr"
    using i q by (auto simp add: occupied_def pending_def numeral_2_eq_2)
  have 4: "rightAudioBuffer s =
       pending (rightAudioBuffer s) @ replicate (2 - occupied (rightAudioBuffer s)) Nullptr"
    using i q by (auto simp add: occupied_def pending_def numeral_2_eq_2)
  have 5: "if rxLeft \<noteq> Nullptr \<and> rxRight \<noteq> Nullptr
      then pending (leftAudioBuffer (update rxLeft rxRight s)) =
             (if occupied (leftAudioBuffer s) = 2 then tl (pending (leftAudioBuffer s))
              else pending (leftAudioBuffer s)) @ [rxLeft] \<and>
           pending (rightAudioBuffer (update rxLeft rxRight s)) =
             (if occupied (rightAudioBuffer s) = 2 then tl (pending (rightAudioBuffer s))
              else pending (rightAudioBuffer s)) @ [rxRight]
      else leftAudioBuffer (update rxLeft rxRight s) = leftAudioBuffer s \<and>
           rightAudioBuffer (update rxLeft rxRight s) = rightAudioBuffer s"
    using i q by (auto simp add: update_left [OF q(1)] update_right [OF q(2)]
        occupied_def pending_def)
  from dmaISR_queues [OF wf q, of fifoTx_addr SADDR] obtain s' where
    d: "dmaISR fifoTx_addr SADDR s = Some s'"
    and c: "if l0 \<noteq> Nullptr \<and> l0 \<noteq> SilentAudio \<and> r0 \<noteq> Nullptr \<and> r0 \<noteq> SilentAudio
      then leftAudioBuffer s' = [l1, Nullptr] \<and> rightAudioBuffer s' = [r1, Nullptr] \<and>
           released s' = released s @ [l0, r0]
      else leftAudioBuffer s' = [l0, l1] \<and> rightAudioBuffer s' = [r0, r1] \<and>
           released s' = released s"
    by blast
  have 6: "if pending (leftAudioBuffer s) \<noteq> [] \<and> pending (rightAudioBuffer s) \<noteq> []
         then (\<exists>ld rd.
                 data_of s (hd (pending (leftAudioBuffer s))) = Some ld \<and>
                 data_of s (hd (pending (rightAudioBuffer s))) = Some rd \<and>
                 spdifInterleave (nat (sint (getTxOffset SADDR fifoTx_addr 1024))) ld rd (fifoTx s)
                   = Some (fifoTx s')) \<and>
              released s' =
                released s @ [hd (pending (leftAudioBuffer s)), hd (pending (rightAudioBuffer s))] \<and>
              pending (leftAudioBuffer s') = tl (pending (leftAudioBuffer s)) \<and>
              pending (rightAudioBuffer s') = tl (pending (rightAudioBuffer s))
         else released s' = released s \<and>
              leftAudioBuffer s' = leftAudioBuffer s \<and>
              rightAudioBuffer s' = rightAudioBuffer s"
    using i q c dmaISR_fill [OF wf d]
    by (auto simp add: pending_def front_or_silent_def split: if_splits)
  from r 1 2 3 4 5 d 6 show ?thesis by blast
qed

theorem lockstep_fifo_witness:
  "\<exists>s. run 0x20200000 [Update (Block 1) (Block 2), Update (Block 3) (Block 4)]
          (init (static_storage (\<lambda>_. replicate 128 0))) = Some s \<and>
     lockstep s \<and> occupied (leftAudioBuffer s) = occupied (rightAudioBuffer s) \<and>
     pending (leftAudioBuffer (update (Block 5) (Block 6) s)) = [Block 3, Block 5] \<and>
     pending (rightAudioBuffer (update (Block 5) (Block 6) s)) = [Block 4, Block 6] \<and>
     (\<exists>s'. dmaISR 0x20200000 0x20200400 s = Some s' \<and>
        released s' = [Block 1, Block 2] \<and>
        pending (leftAudioBuffer s') = [Block 3] \<and> pending (rightAudioBuffer s') = [Block 4])"
proof -
  have h: "list_all from_graph [Update (Block 1) (Block 2), Update (Block 3) (Block 4)]"
    by simp
  from lockstep_fifo [OF well_formed_static h, where fifoTx_addr = "0x20200000"
      and SADDR = "0x20200400" and rxLeft = "Block 5" and rxRight = "Block 6"]
  show ?thesis
    unfolding run_two_updates by (auto simp add: occupied_def pending_def)
qed

text \<open>
  C10. \<open>getTxOffset\<close> returns \<open>0x0000\<close> or \<open>0x0100\<close> only. On 128 left and 128
  right samples \<open>spdifInterleave\<close> returns exactly when the 256 words from \<open>pTx\<close> on
  lie inside the destination, and then it changes no word outside them. So a firing of
  \<open>dmaISR\<close> on a well-formed state returns, stays inside the 512 words of
  \<open>fifoTx\<close>, and leaves the half it did not select as it was.
\<close>

theorem dmaISR_writes_in_bounds:
  assumes "well_formed s"
  shows "(getTxOffset sa a n = 0x0000 \<or> getTxOffset sa a n = 0x0100) \<and>
     (length leftAudioData = 128 \<and> length rightAudioData = 128 \<longrightarrow>
        (if pTx + 256 \<le> length mem
         then \<exists>mem'. spdifInterleave pTx leftAudioData rightAudioData mem = Some mem' \<and>
                length mem' = length mem \<and>
                (\<forall>k < length mem. k < pTx \<or> pTx + 256 \<le> k \<longrightarrow> mem' ! k = mem ! k)
         else spdifInterleave pTx leftAudioData rightAudioData mem = None)) \<and>
     nat (sint (getTxOffset SADDR fifoTx_addr 1024)) + 256 \<le> 512 \<and>
     (\<exists>s'. dmaISR fifoTx_addr SADDR s = Some s' \<and> length (fifoTx s') = 512 \<and>
        (\<forall>k < 512. k < nat (sint (getTxOffset SADDR fifoTx_addr 1024)) \<or>
                    nat (sint (getTxOffset SADDR fifoTx_addr 1024)) + 256 \<le> k \<longrightarrow>
                    fifoTx s' ! k = fifoTx s ! k))"
proof -
  let ?off = "nat (sint (getTxOffset SADDR fifoTx_addr 1024))"
  have 1: "getTxOffset sa a n = 0x0000 \<or> getTxOffset sa a n = 0x0100"
    by (simp add: getTxOffset_def)
  have 2: "length leftAudioData = 128 \<and> length rightAudioData = 128 \<longrightarrow>
        (if pTx + 256 \<le> length mem
         then \<exists>mem'. spdifInterleave pTx leftAudioData rightAudioData mem = Some mem' \<and>
                length mem' = length mem \<and>
                (\<forall>k < length mem. k < pTx \<or> pTx + 256 \<le> k \<longrightarrow> mem' ! k = mem ! k)
         else spdifInterleave pTx leftAudioData rightAudioData mem = None)"
  proof (cases "pTx + 256 \<le> length mem")
    case True
    show ?thesis
    proof
      assume "length leftAudioData = 128 \<and> length rightAudioData = 128"
      then have l: "length leftAudioData = 128" and r: "length rightAudioData = 128"
        by simp_all
      from spdifInterleave_nth [OF l r True] obtain mem' where
        "spdifInterleave pTx leftAudioData rightAudioData mem = Some mem'"
        "length mem' = length mem"
        "\<forall>k < length mem. mem' ! k =
          (if pTx \<le> k \<and> k < pTx + 256
           then interleaved leftAudioData rightAudioData (k - pTx) else mem ! k)"
        by blast
      then have "\<exists>mem'. spdifInterleave pTx leftAudioData rightAudioData mem = Some mem' \<and>
                length mem' = length mem \<and>
                (\<forall>k < length mem. k < pTx \<or> pTx + 256 \<le> k \<longrightarrow> mem' ! k = mem ! k)"
        by auto
      with True show "if pTx + 256 \<le> length mem
         then \<exists>mem'. spdifInterleave pTx leftAudioData rightAudioData mem = Some mem' \<and>
                length mem' = length mem \<and>
                (\<forall>k < length mem. k < pTx \<or> pTx + 256 \<le> k \<longrightarrow> mem' ! k = mem ! k)
         else spdifInterleave pTx leftAudioData rightAudioData mem = None"
        by simp
    qed
  next
    case False
    then show ?thesis
      using spdifInterleave_None [of mem pTx leftAudioData rightAudioData] by simp
  qed
  have 4: "?off + 256 \<le> 512"
    using txBase_cases [of SADDR fifoTx_addr 1024] by auto
  from dmaISR_Some [OF assms, of SADDR fifoTx_addr] obtain ld rd mem where
    m: "length mem = 512"
      "\<forall>k < 512. mem ! k =
        (if ?off \<le> k \<and> k < ?off + 256 then interleaved ld rd (k - ?off) else fifoTx s ! k)"
    and d: "dmaISR fifoTx_addr SADDR s =
       Some (release_and_rotate (front_or_silent (leftAudioBuffer s))
               (front_or_silent (rightAudioBuffer s)) (s\<lparr>fifoTx := mem\<rparr>))"
    by blast
  let ?s' = "release_and_rotate (front_or_silent (leftAudioBuffer s))
               (front_or_silent (rightAudioBuffer s)) (s\<lparr>fifoTx := mem\<rparr>)"
  have f: "fifoTx ?s' = mem" by (simp add: release_and_rotate_def)
  have 5: "\<exists>s'. dmaISR fifoTx_addr SADDR s = Some s' \<and> length (fifoTx s') = 512 \<and>
        (\<forall>k < 512. k < ?off \<or> ?off + 256 \<le> k \<longrightarrow> fifoTx s' ! k = fifoTx s ! k)"
    using d m by (intro exI [of _ ?s']) (auto simp add: f)
  from 1 2 4 5 show ?thesis by blast
qed

theorem dmaISR_writes_in_bounds_witness:
  "(getTxOffset 0x20200400 0x20200000 1024 = 0x0000 \<or>
    getTxOffset 0x20200400 0x20200000 1024 = 0x0100) \<and>
   (\<exists>mem'. spdifInterleave 256 (replicate 128 1) (replicate 128 2) (replicate 512 0) = Some mem' \<and>
      length mem' = 512 \<and> mem' ! 255 = 0) \<and>
   (\<exists>s'. dmaISR 0x20200000 0x20200400 two_pairs = Some s' \<and> length (fifoTx s') = 512 \<and>
      fifoTx s' ! 256 = 0 \<and> fifoTx s' ! 511 = 0)"
proof -
  have off: "nat (sint (getTxOffset 0x20200400 0x20200000 1024)) = 0"
    by (simp add: getTxOffset_def)
  have f: "fifoTx two_pairs = replicate 512 0"
    by (simp add: two_pairs_def static_storage_def)
  from dmaISR_writes_in_bounds [OF well_formed_two_pairs, where sa = "0x20200400" and a = "0x20200000" and n = 1024
      and SADDR = "0x20200400" and fifoTx_addr = "0x20200000"
      and leftAudioData = "replicate 128 1" and rightAudioData = "replicate 128 2"
      and pTx = 256 and mem = "replicate 512 0"]
  have 1: "getTxOffset 0x20200400 0x20200000 1024 = 0x0000 \<or>
    getTxOffset 0x20200400 0x20200000 1024 = 0x0100"
    and 2: "\<exists>mem'. spdifInterleave 256 (replicate 128 1) (replicate 128 2) (replicate 512 0)
               = Some mem' \<and>
      length mem' = length (replicate 512 (0 :: int32_t)) \<and>
      (\<forall>k < length (replicate 512 (0 :: int32_t)). k < 256 \<or> 256 + 256 \<le> k \<longrightarrow>
         mem' ! k = replicate 512 (0 :: int32_t) ! k)"
    and 3: "\<exists>s'. dmaISR 0x20200000 0x20200400 two_pairs = Some s' \<and> length (fifoTx s') = 512 \<and>
        (\<forall>k < 512. k < nat (sint (getTxOffset 0x20200400 0x20200000 1024)) \<or>
                    nat (sint (getTxOffset 0x20200400 0x20200000 1024)) + 256 \<le> k \<longrightarrow>
                    fifoTx s' ! k = fifoTx two_pairs ! k)"
    by (simp_all only: length_replicate if_True le_refl add_0 refl)
  from 2 obtain mem' where
    a: "spdifInterleave 256 (replicate 128 1) (replicate 128 2) (replicate 512 0) = Some mem'"
      "length mem' = 512"
    and b: "\<forall>k < length (replicate 512 (0 :: int32_t)). k < 256 \<or> 256 + 256 \<le> k \<longrightarrow>
         mem' ! k = replicate 512 (0 :: int32_t) ! k"
    by auto
  from b [rule_format, of 255] have "mem' ! 255 = 0" by simp
  with a have w2: "\<exists>mem'. spdifInterleave 256 (replicate 128 1) (replicate 128 2)
      (replicate 512 0) = Some mem' \<and> length mem' = 512 \<and> mem' ! 255 = 0"
    by blast
  from 3 obtain s' where
    c: "dmaISR 0x20200000 0x20200400 two_pairs = Some s'" "length (fifoTx s') = 512"
    and e: "\<forall>k < 512. k < 0 \<or> 0 + 256 \<le> k \<longrightarrow> fifoTx s' ! k = replicate 512 (0 :: int32_t) ! k"
    unfolding off f by blast
  from e [rule_format, of 256] e [rule_format, of 511]
  have "fifoTx s' ! 256 = 0" "fifoTx s' ! 511 = 0" by simp_all
  with c have w3: "\<exists>s'. dmaISR 0x20200000 0x20200400 two_pairs = Some s' \<and>
      length (fifoTx s') = 512 \<and> fifoTx s' ! 256 = 0 \<and> fifoTx s' ! 511 = 0"
    by blast
  from 1 w2 w3 show ?thesis by blast
qed

end
